theory Spec2Isabelle
  imports Main "HOL-Library.Word"
begin

unbundle bit_operations_syntax

section \<open>The USB-I2C interfacing module (I2cFunctions.c)\<close>

text \<open>
  A shallow embedding of the four functions of \<^verbatim>\<open>FX3_Firmware/I2cFunctions.c\<close>:
  \<^verbatim>\<open>ParseUSBBuffer\<close>, \<^verbatim>\<open>AdiI2CReadHandler\<close>, \<^verbatim>\<open>AdiI2CWriteHandler\<close> and
  \<^verbatim>\<open>AdiI2CInit\<close>. The globals of the file are a record passed in and returned; the
  functions of the Cypress SDK that the file calls are a record of functions giving what
  each call returns; every call to the USB, I2C, DMA and logging interfaces is appended
  to a trace, in program order.
\<close>

subsection \<open>Types\<close>

type_synonym uint8_t = "8 word"
type_synonym uint16_t = "16 word"
type_synonym uint32_t = "32 word"

text \<open>
  \<^verbatim>\<open>CyU3PReturnStatus_t\<close> and \<^verbatim>\<open>CY_U3P_SUCCESS\<close> come from the SDK headers (an unsigned
  32-bit code, success being 0). The functions below only compare a status with
  \<^verbatim>\<open>CY_U3P_SUCCESS\<close> and hand it on.
\<close>

type_synonym CyU3PReturnStatus_t = "32 word"

definition CY_U3P_SUCCESS :: CyU3PReturnStatus_t where
  "CY_U3P_SUCCESS = 0"

text \<open>
  \<^verbatim>\<open>CyU3PI2cPreamble_t\<close> is declared in the SDK: a fixed array \<^verbatim>\<open>buffer\<close> of bytes,
  a \<^verbatim>\<open>uint8_t length\<close> and a \<^verbatim>\<open>uint16_t ctrlMask\<close>. The fields carry the prefix
  \<open>pre_\<close> (\<open>length\<close> is the list function in HOL). The capacity of \<^verbatim>\<open>buffer\<close> is the
  length of the list \<open>pre_buffer\<close>; it is a parameter \<open>cap\<close> of the handlers (8 in
  the SDK's header).
\<close>

record CyU3PI2cPreamble_t =
  pre_buffer :: "uint8_t list"
  pre_length :: uint8_t
  pre_ctrlMask :: uint16_t

text \<open>\<^verbatim>\<open>CyU3PI2cPreamble_t preamble = {};\<close> (every member zero).\<close>

definition preamble_zero :: "nat \<Rightarrow> CyU3PI2cPreamble_t" where
  "preamble_zero cap = \<lparr>pre_buffer = replicate cap 0, pre_length = 0, pre_ctrlMask = 0\<rparr>"

text \<open>
  A pointer into one of the two global arrays, as an offset from its first element.
\<close>

datatype pointer = USBBuffer_plus nat | BulkBuffer_plus nat

text \<open>
  \<^verbatim>\<open>CyU3PDmaBuffer_t\<close> is declared in the SDK; this file assigns its members
  \<^verbatim>\<open>buffer\<close>, \<^verbatim>\<open>size\<close> and \<^verbatim>\<open>count\<close>. The type \<open>'n\<close> of the two integer members is
  not fixed by this file and stays a parameter, used below at \<open>'w word\<close> for a width
  \<open>'w\<close> (the SDK declares both \<^verbatim>\<open>uint16_t\<close>); an assignment converts the assigned
  value to that width.
\<close>

record 'n CyU3PDmaBuffer_t =
  dma_buffer :: pointer
  dma_size :: 'n
  dma_count :: 'n

text \<open>\<^verbatim>\<open>CyU3PI2cConfig_t\<close>, with the four members \<^verbatim>\<open>AdiI2CInit\<close> sets.\<close>

record CyU3PI2cConfig_t =
  bitRate :: uint32_t
  busTimeout :: uint32_t
  dmaTimeout :: uint16_t
  isDma :: bool

text \<open>
  \<^verbatim>\<open>BoardState\<close> is declared elsewhere in the firmware; the two members this file uses.
\<close>

record BoardState =
  I2CRetryCount :: uint32_t
  I2CBitRate :: uint32_t

text \<open>
  The globals: \<^verbatim>\<open>uint8_t USBBuffer[4096]\<close>, \<^verbatim>\<open>uint8_t BulkBuffer[12288]\<close>,
  \<^verbatim>\<open>ManualDMABuffer\<close> and \<^verbatim>\<open>FX3State\<close>.
\<close>

record 'n globals =
  USBBuffer :: "uint8_t list"
  BulkBuffer :: "uint8_t list"
  ManualDMABuffer :: "'n CyU3PDmaBuffer_t"
  FX3State :: BoardState

text \<open>The first argument of \<^verbatim>\<open>AdiLogError\<close>: the file the error is logged from.\<close>

datatype FileIdentifier = I2cFunctions_c

text \<open>
  What the SDK returns to this file. \<open>CyU3PUsbGetEP0Data count buffer\<close> gives the status,
  the contents of \<^verbatim>\<open>USBBuffer\<close> after the call and the count read.
  \<open>CyU3PI2cReceiveBytes preamble bulk byteCount retryCount\<close> gives the status and the
  contents of \<^verbatim>\<open>BulkBuffer\<close> after the call. \<open>CyU3PI2cTransmitBytes preamble data
  byteCount retryCount\<close> gives the status; \<open>data\<close> is the memory of \<^verbatim>\<open>USBBuffer\<close> from
  the pointer passed on to the end of the array (none of it for a pointer past the end).
\<close>

record sdk =
  CyU3PUsbGetEP0Data :: "uint16_t \<Rightarrow> uint8_t list \<Rightarrow> CyU3PReturnStatus_t \<times> uint8_t list \<times> uint16_t"
  CyU3PI2cReceiveBytes ::
    "CyU3PI2cPreamble_t \<Rightarrow> uint8_t list \<Rightarrow> uint32_t \<Rightarrow> uint32_t \<Rightarrow> CyU3PReturnStatus_t \<times> uint8_t list"
  CyU3PI2cTransmitBytes ::
    "CyU3PI2cPreamble_t \<Rightarrow> uint8_t list \<Rightarrow> uint32_t \<Rightarrow> uint32_t \<Rightarrow> CyU3PReturnStatus_t"
  CyU3PI2cInit :: CyU3PReturnStatus_t
  CyU3PI2cSetConfig :: "CyU3PI2cConfig_t \<Rightarrow> CyU3PReturnStatus_t"

text \<open>
  The calls this file makes, with their arguments and (last) the status returned.
  \<open>Call_AdiLogError file line status\<close> carries the value of \<^verbatim>\<open>__LINE__\<close>.
\<close>

datatype 'n call =
    Call_CyU3PUsbGetEP0Data uint16_t CyU3PReturnStatus_t
  | Call_CyU3PI2cReceiveBytes CyU3PI2cPreamble_t pointer uint32_t uint32_t CyU3PReturnStatus_t
  | Call_CyU3PI2cTransmitBytes CyU3PI2cPreamble_t pointer uint32_t uint32_t CyU3PReturnStatus_t
  | Call_CyU3PDmaChannelSetupSendBuffer "'n CyU3PDmaBuffer_t"
  | Call_AdiLogError FileIdentifier nat CyU3PReturnStatus_t
  | Call_CyU3PI2cDeInit
  | Call_CyU3PI2cInit CyU3PReturnStatus_t
  | Call_CyU3PI2cSetConfig CyU3PI2cConfig_t CyU3PReturnStatus_t

text \<open>
  C gives no meaning to a store past the end of an array. The copy loop of
  \<^verbatim>\<open>ParseUSBBuffer\<close> stores to \<^verbatim>\<open>preamble->buffer[i]\<close> with no test of \<open>i\<close> against
  the capacity; the model stops at the first such store and records its index. This is
  not an error the code returns: it marks a run that has left the defined behaviour of
  the program.
\<close>

datatype undefined_behaviour = Store_past_preamble_buffer nat

subsection \<open>ParseUSBBuffer\<close>

text \<open>
  The loop \<^verbatim>\<open>for(int i = 0; i < preamble->length; i++) { index = 11 + i;
  preamble->buffer[i] = USBBuffer[index]; }\<close>. \<open>index\<close> is \<open>None\<close> until its first
  assignment (\<^verbatim>\<open>uint32_t index;\<close> has no initialiser). \<open>i\<close> stays below 255, so the
  \<^verbatim>\<open>int\<close> never overflows.
\<close>

function ParseUSBBuffer_loop ::
  "uint8_t list \<Rightarrow> nat \<Rightarrow> CyU3PI2cPreamble_t \<Rightarrow> uint32_t option \<Rightarrow>
     undefined_behaviour + (CyU3PI2cPreamble_t \<times> uint32_t option)" where
  "ParseUSBBuffer_loop usb i preamble index =
     (if i < unat (pre_length preamble) then
        (if i < length (pre_buffer preamble) then
           ParseUSBBuffer_loop usb (i + 1)
             (preamble\<lparr>pre_buffer := (pre_buffer preamble)[i := usb ! unat (11 + of_nat i :: uint32_t)]\<rparr>)
             (Some (11 + of_nat i))
         else Inl (Store_past_preamble_buffer i))
      else Inr (preamble, index))"
  by pat_completeness auto
termination
  by (relation "measure (\<lambda>(usb, i, preamble, index). unat (pre_length preamble) - i)") auto

declare ParseUSBBuffer_loop.simps [simp del]

text \<open>
  \<^verbatim>\<open>ParseUSBBuffer(&timeout, &numBytes, &preamble)\<close> on the contents \<open>usb\<close> of
  \<^verbatim>\<open>USBBuffer\<close>: the result is \<open>(timeout, numBytes, preamble, index)\<close>, the three
  objects written through the pointers and the value returned. The returned index is
  \<open>None\<close> when \<^verbatim>\<open>index++\<close> increments a variable that was never assigned. Each
  \<^verbatim>\<open>USBBuffer[k] << n\<close> is computed at 32 bits and converted to the type of the
  left-hand side.
\<close>

definition ParseUSBBuffer ::
  "uint8_t list \<Rightarrow> CyU3PI2cPreamble_t \<Rightarrow>
     undefined_behaviour + (uint32_t \<times> uint32_t \<times> CyU3PI2cPreamble_t \<times> uint32_t option)" where
  "ParseUSBBuffer usb preamble =
     (let numBytes = (ucast (usb ! 0) :: uint32_t);
          numBytes = numBytes OR push_bit 8 (ucast (usb ! 1));
          numBytes = numBytes OR push_bit 16 (ucast (usb ! 2));
          numBytes = numBytes OR push_bit 24 (ucast (usb ! 3));
          timeout = (ucast (usb ! 4) :: uint32_t);
          timeout = timeout OR push_bit 8 (ucast (usb ! 5));
          timeout = timeout OR push_bit 16 (ucast (usb ! 6));
          timeout = timeout OR push_bit 24 (ucast (usb ! 7));
          preamble = preamble\<lparr>pre_length := usb ! 8\<rparr>;
          preamble = preamble\<lparr>pre_ctrlMask := ucast (usb ! 9)\<rparr>;
          preamble = preamble\<lparr>pre_ctrlMask := pre_ctrlMask preamble OR push_bit 8 (ucast (usb ! 10))\<rparr>
      in case ParseUSBBuffer_loop usb 0 preamble None of
           Inl ub \<Rightarrow> Inl ub
         | Inr (preamble, index) \<Rightarrow>
             Inr (timeout, numBytes, preamble, map_option (\<lambda>index. index + 1) index))"

subsection \<open>AdiI2CReadHandler\<close>

text \<open>
  The result is the status returned (or the undefined store the run met), the globals
  after the call and the calls made.
\<close>

definition AdiI2CReadHandler ::
  "sdk \<Rightarrow> nat \<Rightarrow> uint16_t \<Rightarrow> ('w::len) word globals \<Rightarrow>
     (undefined_behaviour + CyU3PReturnStatus_t) \<times> 'w word globals \<times> 'w word call list" where
  "AdiI2CReadHandler sdk cap RequestLength g =
     (case CyU3PUsbGetEP0Data sdk RequestLength (USBBuffer g) of (status, usb, bytesRead) \<Rightarrow>
        let g = g\<lparr>USBBuffer := usb\<rparr>;
            calls = [Call_CyU3PUsbGetEP0Data RequestLength status]
        in if status \<noteq> CY_U3P_SUCCESS then (Inr status, g, calls)
           else
             (case ParseUSBBuffer (USBBuffer g) (preamble_zero cap) of
                Inl ub \<Rightarrow> (Inl ub, g, calls)
              | Inr (timeout, numBytes, preamble, index) \<Rightarrow>
                  (case CyU3PI2cReceiveBytes sdk preamble (BulkBuffer g) numBytes
                          (I2CRetryCount (FX3State g)) of (status, bulk) \<Rightarrow>
                     let calls = calls @ [Call_CyU3PI2cReceiveBytes preamble (BulkBuffer_plus 0)
                                            numBytes (I2CRetryCount (FX3State g)) status];
                         g = g\<lparr>BulkBuffer := bulk\<rparr>
                     in if status \<noteq> CY_U3P_SUCCESS then (Inr status, g, calls)
                        else
                          let dma = (ManualDMABuffer g)\<lparr>dma_buffer := BulkBuffer_plus 0\<rparr>;
                              dma = dma\<lparr>dma_size := 4096\<rparr>;
                              dma = dma\<lparr>dma_count := ucast numBytes\<rparr>;
                              g = g\<lparr>ManualDMABuffer := dma\<rparr>
                          in (Inr status, g,
                              calls @ [Call_CyU3PDmaChannelSetupSendBuffer dma]))))"

subsection \<open>AdiI2CWriteHandler\<close>

text \<open>
  \<open>index_before\<close> is the value that the variable \<^verbatim>\<open>index\<close> of \<^verbatim>\<open>ParseUSBBuffer\<close> holds
  before its first assignment: any 32-bit value. When the loop never assigns it (length
  byte 0), \<^verbatim>\<open>index++\<close> makes the value returned \<open>index_before + 1\<close>, and the handler adds
  that to \<^verbatim>\<open>USBBuffer\<close> like any other index.
\<close>

definition AdiI2CWriteHandler ::
  "sdk \<Rightarrow> nat \<Rightarrow> uint32_t \<Rightarrow> uint16_t \<Rightarrow> ('w::len) word globals \<Rightarrow>
     (undefined_behaviour + CyU3PReturnStatus_t) \<times> 'w word globals \<times> 'w word call list" where
  "AdiI2CWriteHandler sdk cap index_before RequestLength g =
     (case CyU3PUsbGetEP0Data sdk RequestLength (USBBuffer g) of (status, usb, bytesRead) \<Rightarrow>
        let g = g\<lparr>USBBuffer := usb\<rparr>;
            calls = [Call_CyU3PUsbGetEP0Data RequestLength status]
        in if status \<noteq> CY_U3P_SUCCESS then (Inr status, g, calls)
           else
             (case ParseUSBBuffer (USBBuffer g) (preamble_zero cap) of
                Inl ub \<Rightarrow> (Inl ub, g, calls)
              | Inr (timeout, numBytes, preamble, index) \<Rightarrow>
                  let index = (case index of None \<Rightarrow> index_before + 1 | Some index \<Rightarrow> index);
                      bufIndex = USBBuffer_plus (unat index);
                      data = drop (unat index) (USBBuffer g);
                      status = CyU3PI2cTransmitBytes sdk preamble data numBytes
                                 (I2CRetryCount (FX3State g));
                      calls = calls @ [Call_CyU3PI2cTransmitBytes preamble bufIndex numBytes
                                         (I2CRetryCount (FX3State g)) status];
                      calls = (if status \<noteq> CY_U3P_SUCCESS
                               then calls @ [Call_AdiLogError I2cFunctions_c 78 status]
                               else calls)
                  in (Inr status, g, calls)))"

subsection \<open>AdiI2CInit\<close>

text \<open>
  The result is the status returned, the globals after the call and the calls made.
  \<^verbatim>\<open>CyU3PMemSet\<close> zero-fills the local \<^verbatim>\<open>i2cConfig\<close>, whose four members are then all
  assigned: the record is built in one step.
\<close>

definition AdiI2CInit ::
  "sdk \<Rightarrow> uint32_t \<Rightarrow> bool \<Rightarrow> 'n globals \<Rightarrow>
     CyU3PReturnStatus_t \<times> 'n globals \<times> 'n call list" where
  "AdiI2CInit sdk BitRate isDMA g =
     (let BitRate = (if BitRate < 100000 then 100000 else BitRate);
          BitRate = (if BitRate > 1000000 then 1000000 else BitRate);
          calls = [Call_CyU3PI2cDeInit];
          status = CyU3PI2cInit sdk;
          calls = calls @ [Call_CyU3PI2cInit status]
      in if status \<noteq> CY_U3P_SUCCESS
         then (status, g, calls @ [Call_AdiLogError I2cFunctions_c 102 status])
         else
           let i2cConfig = \<lparr>bitRate = BitRate, busTimeout = 0xFFFFFFFF,
                              dmaTimeout = 0xFFFF, isDma = isDMA\<rparr>;
               status = CyU3PI2cSetConfig sdk i2cConfig;
               calls = calls @ [Call_CyU3PI2cSetConfig i2cConfig status];
               g = g\<lparr>FX3State := (FX3State g)\<lparr>I2CBitRate := BitRate\<rparr>\<rparr>
           in (status, g, calls))"

subsection \<open>The wire layout of the specification\<close>

text \<open>
  Modelled from the spec: the encoder of a request. The firmware has none (requests are
  encoded by the host); \<open>spec_encode\<close> follows the table of the specification
  (section 6), all integers little-endian:
  transferLength at offset 0 (4 bytes), timeoutTicks at offset 4 (4 bytes),
  preamble.length at offset 8 (1 byte), preamble.controlMask at offset 9 (2 bytes),
  preamble.addressBytes from offset 11.
\<close>

definition le_bytes32 :: "uint32_t \<Rightarrow> uint8_t list" where
  "le_bytes32 x = [ucast x, ucast (drop_bit 8 x), ucast (drop_bit 16 x), ucast (drop_bit 24 x)]"

definition le_bytes16 :: "uint16_t \<Rightarrow> uint8_t list" where
  "le_bytes16 x = [ucast x, ucast (drop_bit 8 x)]"

definition spec_encode ::
  "uint32_t \<Rightarrow> uint32_t \<Rightarrow> uint8_t \<Rightarrow> uint16_t \<Rightarrow> uint8_t list \<Rightarrow> uint8_t list" where
  "spec_encode transferLength timeoutTicks len controlMask addressBytes =
     le_bytes32 transferLength @ le_bytes32 timeoutTicks @ [len] @ le_bytes16 controlMask @
     addressBytes"

subsection \<open>Example inputs\<close>

text \<open>
  An SDK for one transfer: the control endpoint delivers \<open>payload\<close> at the start of
  \<^verbatim>\<open>USBBuffer\<close> (the bytes behind it keep what they held) with status \<open>ep0_status\<close>, and
  the bus transaction returns \<open>bus_status\<close>, leaving \<^verbatim>\<open>BulkBuffer\<close> as it was.
\<close>

definition sdk_transfer ::
  "uint8_t list \<Rightarrow> CyU3PReturnStatus_t \<Rightarrow> CyU3PReturnStatus_t \<Rightarrow> sdk" where
  "sdk_transfer payload ep0_status bus_status =
     \<lparr>CyU3PUsbGetEP0Data =
        (\<lambda>count usb. (ep0_status, payload @ drop (length payload) usb, of_nat (length payload))),
      CyU3PI2cReceiveBytes = (\<lambda>preamble bulk byteCount retryCount. (bus_status, bulk)),
      CyU3PI2cTransmitBytes = (\<lambda>preamble data byteCount retryCount. bus_status),
      CyU3PI2cInit = CY_U3P_SUCCESS,
      CyU3PI2cSetConfig = (\<lambda>config. CY_U3P_SUCCESS)\<rparr>"

text \<open>
  The same SDK with a bus write whose status is the first byte it is given to send (0
  when it is given none).
\<close>

definition sdk_status_from_data :: "uint8_t list \<Rightarrow> sdk" where
  "sdk_status_from_data payload =
     (sdk_transfer payload CY_U3P_SUCCESS CY_U3P_SUCCESS)
       \<lparr>CyU3PI2cTransmitBytes :=
          (\<lambda>preamble data byteCount retryCount. case data of [] \<Rightarrow> 0 | b # bs \<Rightarrow> ucast b)\<rparr>"

text \<open>An SDK whose \<^verbatim>\<open>CyU3PI2cInit\<close> and \<^verbatim>\<open>CyU3PI2cSetConfig\<close> return the given statuses.\<close>

definition sdk_init :: "CyU3PReturnStatus_t \<Rightarrow> CyU3PReturnStatus_t \<Rightarrow> sdk" where
  "sdk_init init_status config_status =
     (sdk_transfer [] CY_U3P_SUCCESS CY_U3P_SUCCESS)
       \<lparr>CyU3PI2cInit := init_status, CyU3PI2cSetConfig := (\<lambda>config. config_status)\<rparr>"

text \<open>
  Globals with 16-bit DMA descriptor members, a control buffer that still holds the
  byte 0xAA everywhere from earlier traffic, a retry count of 3 and no bit rate saved.
\<close>

definition globals_example :: "16 word globals" where
  "globals_example =
     \<lparr>USBBuffer = replicate 4096 0xAA, BulkBuffer = replicate 12288 0,
      ManualDMABuffer = \<lparr>dma_buffer = BulkBuffer_plus 0, dma_size = 0, dma_count = 0\<rparr>,
      FX3State = \<lparr>I2CRetryCount = 3, I2CBitRate = 0\<rparr>\<rparr>"

section \<open>Properties\<close>

subsection \<open>The copy loop\<close>

lemma unat_index:
  "i < unat (l :: uint8_t) \<Longrightarrow> unat (11 + of_nat i :: uint32_t) = 11 + i"
proof -
  assume a: "i < unat l"
  have "unat l < 2 ^ 8" using unsigned_less [of l, where ?'a = nat] by simp
  with a have "i < 256" by simp
  then show ?thesis by (simp add: unat_word_ariths unat_of_nat)
qed

lemma ParseUSBBuffer_loop_within:
  "unat (pre_length p) \<le> length (pre_buffer p) \<Longrightarrow> i \<le> unat (pre_length p) \<Longrightarrow>
   ParseUSBBuffer_loop usb i p idx =
     Inr (p\<lparr>pre_buffer := take i (pre_buffer p) @ map (\<lambda>j. usb ! (11 + j)) [i..<unat (pre_length p)]
                               @ drop (unat (pre_length p)) (pre_buffer p)\<rparr>,
          if i < unat (pre_length p) then Some (of_nat (10 + unat (pre_length p))) else idx)"
proof (induction usb i p idx rule: ParseUSBBuffer_loop.induct)
  case (1 usb i p idx)
  show ?case
  proof (cases "i < unat (pre_length p)")
    case False
    with "1.prems" have "i = unat (pre_length p)" by simp
    then show ?thesis
      by (subst ParseUSBBuffer_loop.simps) simp
  next
    case True
    with "1.prems" have b: "i < length (pre_buffer p)" by simp
    let ?p = "p\<lparr>pre_buffer := (pre_buffer p)[i := usb ! unat (11 + of_nat i :: uint32_t)]\<rparr>"
    have ih: "ParseUSBBuffer_loop usb (i + 1) ?p (Some (11 + of_nat i)) =
      Inr (?p\<lparr>pre_buffer := take (i + 1) (pre_buffer ?p) @ map (\<lambda>j. usb ! (11 + j)) [i + 1..<unat (pre_length ?p)]
                               @ drop (unat (pre_length ?p)) (pre_buffer ?p)\<rparr>,
          if i + 1 < unat (pre_length ?p) then Some (of_nat (10 + unat (pre_length ?p))) else Some (11 + of_nat i))"
      using "1.IH" [OF True b] "1.prems" True by simp
    have ix: "unat (11 + of_nat i :: uint32_t) = 11 + i" using True by (rule unat_index)
    have tk: "take (i + 1) ((pre_buffer p)[i := usb ! (11 + i)]) = take i (pre_buffer p) @ [usb ! (11 + i)]"
      using b by (simp add: take_Suc_conv_app_nth)
    have up: "[i..<unat (pre_length p)] = i # [i + 1..<unat (pre_length p)]"
      using True by (simp add: upt_conv_Cons)
    have last: "\<not> i + 1 < unat (pre_length p) \<Longrightarrow> (11 + of_nat i :: uint32_t) = of_nat (10 + unat (pre_length p))"
    proof -
      assume "\<not> i + 1 < unat (pre_length p)"
      with True have "unat (pre_length p) = i + 1" by simp
      then show ?thesis by simp
    qed
    show ?thesis
      apply (subst ParseUSBBuffer_loop.simps)
      using True b ih ix tk up last by simp
  qed
qed

lemma ParseUSBBuffer_loop_overrun:
  "length (pre_buffer p) < unat (pre_length p) \<Longrightarrow> i \<le> length (pre_buffer p) \<Longrightarrow>
   ParseUSBBuffer_loop usb i p idx = Inl (Store_past_preamble_buffer (length (pre_buffer p)))"
proof (induction usb i p idx rule: ParseUSBBuffer_loop.induct)
  case (1 usb i p idx)
  show ?case
  proof (cases "i < length (pre_buffer p)")
    case True
    with "1.prems" have a: "i < unat (pre_length p)" by simp
    show ?thesis
      apply (subst ParseUSBBuffer_loop.simps)
      using "1.IH" [OF a True] "1.prems" True a by simp
  next
    case False
    with "1.prems" have "i = length (pre_buffer p)" by simp
    with "1.prems" show ?thesis
      by (subst ParseUSBBuffer_loop.simps) simp
  qed
qed

lemma ParseUSBBuffer_loop_cong:
  "(\<And>j. i \<le> j \<Longrightarrow> j < unat (pre_length p) \<Longrightarrow> usb' ! (11 + j) = usb ! (11 + j)) \<Longrightarrow>
   ParseUSBBuffer_loop usb' i p idx = ParseUSBBuffer_loop usb i p idx"
proof (induction usb i p idx rule: ParseUSBBuffer_loop.induct)
  case (1 usb i p idx)
  show ?case
  proof (cases "i < unat (pre_length p) \<and> i < length (pre_buffer p)")
    case True
    then have a: "i < unat (pre_length p)" and b: "i < length (pre_buffer p)" by simp_all
    have ix: "unat (11 + of_nat i :: uint32_t) = 11 + i" using a by (rule unat_index)
    have e: "usb' ! (11 + i) = usb ! (11 + i)" using "1.prems" [of i] a by simp
    have "ParseUSBBuffer_loop usb' (i + 1)
            (p\<lparr>pre_buffer := (pre_buffer p)[i := usb ! unat (11 + of_nat i :: uint32_t)]\<rparr>) (Some (11 + of_nat i)) =
          ParseUSBBuffer_loop usb (i + 1)
            (p\<lparr>pre_buffer := (pre_buffer p)[i := usb ! unat (11 + of_nat i :: uint32_t)]\<rparr>) (Some (11 + of_nat i))"
      using "1.IH" [OF a b] "1.prems" by simp
    then show ?thesis
      using a b ix e
      by (subst (1 2) ParseUSBBuffer_loop.simps) simp
  next
    case False
    then show ?thesis
      by (subst (1 2) ParseUSBBuffer_loop.simps) auto
  qed
qed

subsection \<open>The parser\<close>

lemma unat_dataOffset: "unat (11 + ucast (l :: uint8_t) :: uint32_t) = 11 + unat l"
proof -
  have "unat l < 2 ^ 8" using unsigned_less [of l, where ?'a = nat] by simp
  then have "unat (ucast l :: uint32_t) = unat l"
    by (simp add: unsigned_ucast_eq take_bit_nat_eq_self)
  moreover have "unat l < 256" using \<open>unat l < 2 ^ 8\<close> by simp
  ultimately show ?thesis by (simp add: unat_word_ariths)
qed

lemma ParseUSBBuffer_within:
  assumes "unat (usb ! 8) \<le> cap"
  shows "ParseUSBBuffer usb (preamble_zero cap) =
             Inr (((ucast (usb ! 4) OR push_bit 8 (ucast (usb ! 5))) OR push_bit 16 (ucast (usb ! 6)))
                    OR push_bit 24 (ucast (usb ! 7)),
                  ((ucast (usb ! 0) OR push_bit 8 (ucast (usb ! 1))) OR push_bit 16 (ucast (usb ! 2)))
                    OR push_bit 24 (ucast (usb ! 3)),
                  \<lparr>pre_buffer = map (\<lambda>j. usb ! (11 + j)) [0..<unat (usb ! 8)] @ replicate (cap - unat (usb ! 8)) 0,
                   pre_length = usb ! 8,
                   pre_ctrlMask = ucast (usb ! 9) OR push_bit 8 (ucast (usb ! 10))\<rparr>,
                  if usb ! 8 = 0 then None else Some (11 + ucast (usb ! 8)))"
proof -
  let ?p = "\<lparr>pre_buffer = replicate cap 0, pre_length = usb ! 8,
             pre_ctrlMask = ucast (usb ! 9) OR push_bit 8 (ucast (usb ! 10))\<rparr>"
  have z: "(usb ! 8 = 0) = (\<not> 0 < unat (usb ! 8))"
    by (simp add: unat_gt_0)
  have "ParseUSBBuffer_loop usb 0 ?p None =
     Inr (?p\<lparr>pre_buffer := take 0 (pre_buffer ?p) @ map (\<lambda>j. usb ! (11 + j)) [0..<unat (pre_length ?p)]
                               @ drop (unat (pre_length ?p)) (pre_buffer ?p)\<rparr>,
          if 0 < unat (pre_length ?p) then Some (of_nat (10 + unat (pre_length ?p))) else None)"
    by (rule ParseUSBBuffer_loop_within) (use assms in simp_all)
  then show ?thesis
    by (simp add: ParseUSBBuffer_def preamble_zero_def Let_def z)
qed

lemma ParseUSBBuffer_overrun:
  assumes "cap < unat (usb ! 8)"
  shows "ParseUSBBuffer usb (preamble_zero cap) = Inl (Store_past_preamble_buffer cap)"
proof -
  let ?p = "\<lparr>pre_buffer = replicate cap 0, pre_length = usb ! 8,
             pre_ctrlMask = ucast (usb ! 9) OR push_bit 8 (ucast (usb ! 10))\<rparr>"
  have "ParseUSBBuffer_loop usb 0 ?p None = Inl (Store_past_preamble_buffer (length (pre_buffer ?p)))"
    by (rule ParseUSBBuffer_loop_overrun) (use assms in simp_all)
  then show ?thesis
    by (simp add: ParseUSBBuffer_def preamble_zero_def Let_def)
qed

lemma ParseUSBBuffer_cong:
  assumes "\<And>i. i < 11 + unat (usb ! 8) \<Longrightarrow> usb' ! i = usb ! i"
  shows "ParseUSBBuffer usb' preamble = ParseUSBBuffer usb preamble"
proof -
  have h: "usb' ! 0 = usb ! 0" "usb' ! 1 = usb ! 1" "usb' ! 2 = usb ! 2" "usb' ! 3 = usb ! 3"
    "usb' ! 4 = usb ! 4" "usb' ! 5 = usb ! 5" "usb' ! 6 = usb ! 6" "usb' ! 7 = usb ! 7"
    "usb' ! 8 = usb ! 8" "usb' ! 9 = usb ! 9" "usb' ! 10 = usb ! 10" "usb' ! Suc 0 = usb ! Suc 0"
    using assms by simp_all
  have l: "ParseUSBBuffer_loop usb' 0 p None = ParseUSBBuffer_loop usb 0 p None"
    if "pre_length p = usb ! 8" for p
    by (rule ParseUSBBuffer_loop_cong) (use assms that in simp)
  show ?thesis
    by (simp add: ParseUSBBuffer_def Let_def h l)
qed

subsection \<open>The paths through the two handlers\<close>

lemma AdiI2CReadHandler_cases:
  assumes "AdiI2CReadHandler sdk cap RequestLength g = (result, g', calls)"
  obtains
    (ep0_fails) status usb bytesRead where
      "CyU3PUsbGetEP0Data sdk RequestLength (USBBuffer g) = (status, usb, bytesRead)"
      "status \<noteq> CY_U3P_SUCCESS" "result = Inr status" "g' = g\<lparr>USBBuffer := usb\<rparr>"
      "calls = [Call_CyU3PUsbGetEP0Data RequestLength status]"
  | (undefined_store) usb bytesRead ub where
      "CyU3PUsbGetEP0Data sdk RequestLength (USBBuffer g) = (CY_U3P_SUCCESS, usb, bytesRead)"
      "ParseUSBBuffer usb (preamble_zero cap) = Inl ub"
      "result = Inl ub" "g' = g\<lparr>USBBuffer := usb\<rparr>"
      "calls = [Call_CyU3PUsbGetEP0Data RequestLength CY_U3P_SUCCESS]"
  | (bus_fails) usb bytesRead timeout numBytes preamble index status bulk where
      "CyU3PUsbGetEP0Data sdk RequestLength (USBBuffer g) = (CY_U3P_SUCCESS, usb, bytesRead)"
      "ParseUSBBuffer usb (preamble_zero cap) = Inr (timeout, numBytes, preamble, index)"
      "CyU3PI2cReceiveBytes sdk preamble (BulkBuffer g) numBytes (I2CRetryCount (FX3State g)) = (status, bulk)"
      "status \<noteq> CY_U3P_SUCCESS" "result = Inr status"
      "g' = g\<lparr>USBBuffer := usb, BulkBuffer := bulk\<rparr>"
      "calls = [Call_CyU3PUsbGetEP0Data RequestLength CY_U3P_SUCCESS,
                Call_CyU3PI2cReceiveBytes preamble (BulkBuffer_plus 0) numBytes
                  (I2CRetryCount (FX3State g)) status]"
  | (staged) usb bytesRead timeout numBytes preamble index bulk where
      "CyU3PUsbGetEP0Data sdk RequestLength (USBBuffer g) = (CY_U3P_SUCCESS, usb, bytesRead)"
      "ParseUSBBuffer usb (preamble_zero cap) = Inr (timeout, numBytes, preamble, index)"
      "CyU3PI2cReceiveBytes sdk preamble (BulkBuffer g) numBytes (I2CRetryCount (FX3State g)) = (CY_U3P_SUCCESS, bulk)"
      "result = Inr CY_U3P_SUCCESS"
      "g' = g\<lparr>USBBuffer := usb, BulkBuffer := bulk,
                ManualDMABuffer := (ManualDMABuffer g)\<lparr>dma_buffer := BulkBuffer_plus 0, dma_size := 4096,
                                                        dma_count := ucast numBytes\<rparr>\<rparr>"
      "calls = [Call_CyU3PUsbGetEP0Data RequestLength CY_U3P_SUCCESS,
                Call_CyU3PI2cReceiveBytes preamble (BulkBuffer_plus 0) numBytes
                  (I2CRetryCount (FX3State g)) CY_U3P_SUCCESS,
                Call_CyU3PDmaChannelSetupSendBuffer
                  ((ManualDMABuffer g)\<lparr>dma_buffer := BulkBuffer_plus 0, dma_size := 4096,
                                       dma_count := ucast numBytes\<rparr>)]"
  using assms
  by (auto simp: AdiI2CReadHandler_def Let_def split: prod.splits sum.splits if_splits)


subsection \<open>Round trip through the wire layout\<close>

lemma le32_roundtrip:
  "((ucast (ucast x :: uint8_t) OR push_bit 8 (ucast (ucast (drop_bit 8 x) :: uint8_t))) OR
     push_bit 16 (ucast (ucast (drop_bit 16 x) :: uint8_t))) OR
     push_bit 24 (ucast (ucast (drop_bit 24 x) :: uint8_t)) = (x :: uint32_t)"
  (is "?l = _")
proof (rule bit_word_eqI)
  fix n :: nat
  assume a: "n < LENGTH(32)"
  consider "n < 8" | "8 \<le> n" "n < 16" | "16 \<le> n" "n < 24" | "24 \<le> n" "n < 32"
    using a by fastforce
  then show "bit ?l n = bit x n"
  proof cases
    case 1
    then show ?thesis by (auto simp: bit_simps)
  next
    case 2
    then show ?thesis by (auto simp: bit_simps)
  next
    case 3
    then show ?thesis by (auto simp: bit_simps)
  next
    case 4
    then show ?thesis by (auto simp: bit_simps)
  qed
qed

lemma le16_roundtrip:
  "ucast (ucast x :: uint8_t) OR push_bit 8 (ucast (ucast (drop_bit 8 x) :: uint8_t)) = (x :: uint16_t)"
  by (rule bit_word_eqI) (auto simp: bit_simps)

lemma spec_encode_nth:
  "spec_encode n t len m addressBytes @ rest =
     ucast n # ucast (drop_bit 8 n) # ucast (drop_bit 16 n) # ucast (drop_bit 24 n) #
     ucast t # ucast (drop_bit 8 t) # ucast (drop_bit 16 t) # ucast (drop_bit 24 t) #
     len # ucast m # ucast (drop_bit 8 m) # addressBytes @ rest"
  by (simp add: spec_encode_def le_bytes32_def le_bytes16_def)

lemma ParseUSBBuffer_spec_encode:
  assumes "length addressBytes = unat len" and "unat len \<le> cap"
  shows "ParseUSBBuffer (spec_encode numBytes timeout len ctrlMask addressBytes @ rest)
           (preamble_zero cap) =
         Inr (timeout, numBytes,
              \<lparr>pre_buffer = addressBytes @ replicate (cap - unat len) 0, pre_length = len,
               pre_ctrlMask = ctrlMask\<rparr>,
              if len = 0 then None else Some (11 + ucast len))"
proof -
  let ?usb = "spec_encode numBytes timeout len ctrlMask addressBytes @ rest"
  have l: "?usb ! 8 = len" by (simp add: spec_encode_nth)
  have a: "map (\<lambda>j. ?usb ! (11 + j)) [0..<unat len] = addressBytes"
    using assms(1) by (auto simp: spec_encode_nth nth_append intro!: nth_equalityI)
  have "unat (?usb ! 8) \<le> cap" using assms(2) by (simp add: l)
  from ParseUSBBuffer_within [OF this] show ?thesis
    unfolding l a
    by (simp add: spec_encode_nth le32_roundtrip le16_roundtrip)
qed

text \<open>
  Claim C5. The request with transferLength 16, timeoutTicks 1000, preamble.length 2,
  controlMask 0x0001 and address bytes 0x50, 0x00, encoded in the wire layout and
  followed by any bytes, parses to exactly these fields (the unused entries of the
  preamble buffer stay zero) and to the returned offset 13. The capacity of the
  preamble buffer is any \<open>cap\<close> of at least 2.
\<close>

theorem ParseUSBBuffer_roundtrip_example:
  assumes "2 \<le> cap"
  shows "ParseUSBBuffer (spec_encode 16 1000 2 1 [0x50, 0] @ rest) (preamble_zero cap) =
     Inr (1000, 16,
          \<lparr>pre_buffer = [0x50, 0] @ replicate (cap - 2) 0, pre_length = 2, pre_ctrlMask = 1\<rparr>,
          Some 13)"
  using assms ParseUSBBuffer_spec_encode [of "[0x50, 0]" 2 cap 16 1000 1 rest] by simp

theorem ParseUSBBuffer_roundtrip_example_witness:
  "(2::nat) \<le> 8 \<and>
   spec_encode 16 1000 2 1 [0x50, 0] = [16, 0, 0, 0, 0xE8, 3, 0, 0, 2, 1, 0, 0x50, 0] \<and>
   length (spec_encode 16 1000 2 1 [0x50, 0] @ replicate 4083 0) = 4096 \<and>
   ParseUSBBuffer (spec_encode 16 1000 2 1 [0x50, 0] @ replicate 4083 0) (preamble_zero 8) =
     Inr (1000, 16,
          \<lparr>pre_buffer = [0x50, 0, 0, 0, 0, 0, 0, 0], pre_length = 2, pre_ctrlMask = 1\<rparr>,
          Some 13)"
proof -
  have h: "(2::nat) \<le> 8" by simp
  have r: "replicate 6 (0::uint8_t) = [0, 0, 0, 0, 0, 0]"
    by (simp add: numeral_eq_Suc)
  have e: "spec_encode 16 1000 2 1 [0x50, 0] = [16, 0, 0, 0, 0xE8, 3, 0, 0, 2, 1, 0, 0x50, 0]"
    by (simp add: spec_encode_def le_bytes32_def le_bytes16_def)
  have "ParseUSBBuffer (spec_encode 16 1000 2 1 [0x50, 0] @ replicate 4083 0) (preamble_zero 8) =
     Inr (1000, 16,
          \<lparr>pre_buffer = [0x50, 0, 0, 0, 0, 0, 0, 0], pre_length = 2, pre_ctrlMask = 1\<rparr>,
          Some 13)"
    using ParseUSBBuffer_roundtrip_example [OF h, of "replicate 4083 0"] by (simp add: r)
  then show ?thesis using e by simp
qed

subsection \<open>Bus configuration\<close>

lemma sdk_init_simps:
  "CyU3PI2cInit (sdk_init a b) = a" "CyU3PI2cSetConfig (sdk_init a b) c = b"
  by (simp_all add: sdk_init_def sdk_transfer_def)

text \<open>
  Claim C7. When \<^verbatim>\<open>CyU3PI2cInit\<close> succeeds, the bit rate handed to
  \<^verbatim>\<open>CyU3PI2cSetConfig\<close>, which is also the rate saved in \<^verbatim>\<open>FX3State\<close>, lies between
  100000 and 1000000: it is 100000 for a request below 100000, 1000000 for a request
  above 1000000, and the request itself otherwise. The witness evaluates the requests
  50000, 2000000 and 400000.
\<close>

theorem AdiI2CInit_clamps_bit_rate:
  assumes "CyU3PI2cInit sdk = CY_U3P_SUCCESS"
      and "AdiI2CInit sdk BitRate isDMA g = (status, g', calls)"
  shows "\<exists>i2cConfig.
           calls = [Call_CyU3PI2cDeInit, Call_CyU3PI2cInit CY_U3P_SUCCESS,
                    Call_CyU3PI2cSetConfig i2cConfig status] \<and>
           I2CBitRate (FX3State g') = bitRate i2cConfig \<and>
           100000 \<le> bitRate i2cConfig \<and> bitRate i2cConfig \<le> 1000000 \<and>
           (BitRate < 100000 \<longrightarrow> bitRate i2cConfig = 100000) \<and>
           (1000000 < BitRate \<longrightarrow> bitRate i2cConfig = 1000000) \<and>
           (100000 \<le> BitRate \<and> BitRate \<le> 1000000 \<longrightarrow> bitRate i2cConfig = BitRate)"
proof -
  define eff :: uint32_t where
    "eff = (if (if BitRate < 100000 then 100000 else BitRate) > 1000000 then 1000000
            else (if BitRate < 100000 then 100000 else BitRate))"
  have lo: "100000 \<le> eff" by (auto simp: eff_def not_less)
  have hi: "eff \<le> 1000000" by (auto simp: eff_def not_less)
  have c1: "BitRate < 100000 \<Longrightarrow> eff = 100000" by (simp add: eff_def)
  have c2: "1000000 < BitRate \<Longrightarrow> eff = 1000000"
  proof -
    assume a: "1000000 < BitRate"
    have "(100000::uint32_t) < 1000000" by simp
    from less_trans [OF this a] have "\<not> BitRate < 100000"
      by (simp add: not_less less_imp_le)
    with a show ?thesis by (simp add: eff_def)
  qed
  have c3: "100000 \<le> BitRate \<and> BitRate \<le> 1000000 \<Longrightarrow> eff = BitRate"
    by (auto simp: eff_def not_less)
  let ?cfg = "\<lparr>bitRate = eff, busTimeout = 0xFFFFFFFF, dmaTimeout = 0xFFFF, isDma = isDMA\<rparr>"
  have "AdiI2CInit sdk BitRate isDMA g =
          (CyU3PI2cSetConfig sdk ?cfg, g\<lparr>FX3State := (FX3State g)\<lparr>I2CBitRate := eff\<rparr>\<rparr>,
           [Call_CyU3PI2cDeInit, Call_CyU3PI2cInit CY_U3P_SUCCESS,
            Call_CyU3PI2cSetConfig ?cfg (CyU3PI2cSetConfig sdk ?cfg)])"
    using assms(1) by (simp add: AdiI2CInit_def Let_def eff_def)
  with assms(2) have "calls = [Call_CyU3PI2cDeInit, Call_CyU3PI2cInit CY_U3P_SUCCESS,
                    Call_CyU3PI2cSetConfig ?cfg status]"
    and "I2CBitRate (FX3State g') = bitRate ?cfg" by auto
  then show ?thesis using lo hi c1 c2 c3
    by (intro exI [of _ ?cfg]) simp
qed

theorem AdiI2CInit_clamps_bit_rate_witness:
  "CyU3PI2cInit (sdk_init CY_U3P_SUCCESS CY_U3P_SUCCESS) = CY_U3P_SUCCESS \<and>
   I2CBitRate (FX3State (fst (snd (AdiI2CInit (sdk_init CY_U3P_SUCCESS CY_U3P_SUCCESS) 50000 False globals_example)))) = 100000 \<and>
   I2CBitRate (FX3State (fst (snd (AdiI2CInit (sdk_init CY_U3P_SUCCESS CY_U3P_SUCCESS) 2000000 False globals_example)))) = 1000000 \<and>
   I2CBitRate (FX3State (fst (snd (AdiI2CInit (sdk_init CY_U3P_SUCCESS CY_U3P_SUCCESS) 400000 False globals_example)))) = 400000"
proof -
  let ?sdk = "sdk_init CY_U3P_SUCCESS CY_U3P_SUCCESS"
  have i: "CyU3PI2cInit ?sdk = CY_U3P_SUCCESS" by (simp add: sdk_init_simps)
  have p: "r = (fst r, fst (snd r), snd (snd r))"
    for r :: "CyU3PReturnStatus_t \<times> 16 word globals \<times> 16 word call list" by simp
  have "I2CBitRate (FX3State (fst (snd (AdiI2CInit ?sdk 50000 False globals_example)))) = 100000"
    using AdiI2CInit_clamps_bit_rate [OF i p, of 50000 False globals_example] by auto
  moreover have "I2CBitRate (FX3State (fst (snd (AdiI2CInit ?sdk 2000000 False globals_example)))) = 1000000"
    using AdiI2CInit_clamps_bit_rate [OF i p, of 2000000 False globals_example] by auto
  moreover have "I2CBitRate (FX3State (fst (snd (AdiI2CInit ?sdk 400000 False globals_example)))) = 400000"
    using AdiI2CInit_clamps_bit_rate [OF i p, of 400000 False globals_example] by auto
  ultimately show ?thesis using i by simp
qed

text \<open>
  Claim C6, as stated, fails: the rate is saved whenever \<^verbatim>\<open>CyU3PI2cInit\<close> succeeded,
  also when \<^verbatim>\<open>CyU3PI2cSetConfig\<close> then fails. With an SDK whose initialisation
  succeeds and whose \<^verbatim>\<open>CyU3PI2cSetConfig\<close> returns 0x40, a request of 400000 returns
  the failure 0x40 and the saved rate goes from 0 to 400000.
\<close>

theorem AdiI2CInit_saves_rate_when_SetConfig_fails:
  "fst (AdiI2CInit (sdk_init CY_U3P_SUCCESS 0x40) 400000 False globals_example) = 0x40 \<and>
   (0x40 :: CyU3PReturnStatus_t) \<noteq> CY_U3P_SUCCESS \<and>
   I2CBitRate (FX3State globals_example) = 0 \<and>
   I2CBitRate (FX3State (fst (snd (AdiI2CInit (sdk_init CY_U3P_SUCCESS 0x40) 400000 False
                                     globals_example)))) = 400000"
  by (simp add: AdiI2CInit_def Let_def sdk_init_simps globals_example_def CY_U3P_SUCCESS_def)

text \<open>
  Claim C6, amended. The clamped bit rate is saved in \<^verbatim>\<open>FX3State\<close> exactly when
  \<^verbatim>\<open>CyU3PI2cInit\<close> succeeds; the status returned is then that of
  \<^verbatim>\<open>CyU3PI2cSetConfig\<close>, success or not. When \<^verbatim>\<open>CyU3PI2cInit\<close> fails, the function
  logs the status with \<^verbatim>\<open>AdiLogError\<close> (line 102), returns it, has called
  \<^verbatim>\<open>CyU3PI2cInit\<close> once, and leaves the globals as they were.
\<close>

theorem AdiI2CInit_saves_rate_iff_init_succeeds:
  assumes "AdiI2CInit sdk BitRate isDMA g = (status, g', calls)"
  shows "(CyU3PI2cInit sdk = CY_U3P_SUCCESS \<longrightarrow>
            (\<exists>i2cConfig.
               calls = [Call_CyU3PI2cDeInit, Call_CyU3PI2cInit CY_U3P_SUCCESS,
                        Call_CyU3PI2cSetConfig i2cConfig status] \<and>
               status = CyU3PI2cSetConfig sdk i2cConfig \<and>
               100000 \<le> bitRate i2cConfig \<and> bitRate i2cConfig \<le> 1000000 \<and>
               g' = g\<lparr>FX3State := (FX3State g)\<lparr>I2CBitRate := bitRate i2cConfig\<rparr>\<rparr>)) \<and>
         (CyU3PI2cInit sdk \<noteq> CY_U3P_SUCCESS \<longrightarrow>
            status = CyU3PI2cInit sdk \<and> g' = g \<and>
            calls = [Call_CyU3PI2cDeInit, Call_CyU3PI2cInit status,
                     Call_AdiLogError I2cFunctions_c 102 status])"
proof (cases "CyU3PI2cInit sdk = CY_U3P_SUCCESS")
  case False
  with assms show ?thesis by (auto simp: AdiI2CInit_def Let_def)
next
  case True
  define eff :: uint32_t where
    "eff = (if (if BitRate < 100000 then 100000 else BitRate) > 1000000 then 1000000
            else (if BitRate < 100000 then 100000 else BitRate))"
  have lo: "100000 \<le> eff" by (auto simp: eff_def not_less)
  have hi: "eff \<le> 1000000" by (auto simp: eff_def not_less)
  let ?cfg = "\<lparr>bitRate = eff, busTimeout = 0xFFFFFFFF, dmaTimeout = 0xFFFF, isDma = isDMA\<rparr>"
  have "AdiI2CInit sdk BitRate isDMA g =
          (CyU3PI2cSetConfig sdk ?cfg, g\<lparr>FX3State := (FX3State g)\<lparr>I2CBitRate := eff\<rparr>\<rparr>,
           [Call_CyU3PI2cDeInit, Call_CyU3PI2cInit CY_U3P_SUCCESS,
            Call_CyU3PI2cSetConfig ?cfg (CyU3PI2cSetConfig sdk ?cfg)])"
    using True by (simp add: AdiI2CInit_def Let_def eff_def)
  with assms have "calls = [Call_CyU3PI2cDeInit, Call_CyU3PI2cInit CY_U3P_SUCCESS,
                    Call_CyU3PI2cSetConfig ?cfg status]"
    and "status = CyU3PI2cSetConfig sdk ?cfg"
    and "g' = g\<lparr>FX3State := (FX3State g)\<lparr>I2CBitRate := bitRate ?cfg\<rparr>\<rparr>" by auto
  then show ?thesis using lo hi True
    by (intro conjI impI exI [of _ ?cfg]) simp_all
qed

theorem AdiI2CInit_saves_rate_iff_init_succeeds_witness:
  "CyU3PI2cInit (sdk_init CY_U3P_SUCCESS 0x40) = CY_U3P_SUCCESS \<and>
   fst (AdiI2CInit (sdk_init CY_U3P_SUCCESS 0x40) 400000 False globals_example) = 0x40 \<and>
   100000 \<le> I2CBitRate (FX3State (fst (snd (AdiI2CInit (sdk_init CY_U3P_SUCCESS 0x40) 400000 False
                                               globals_example)))) \<and>
   CyU3PI2cInit (sdk_init 0x47 CY_U3P_SUCCESS) \<noteq> CY_U3P_SUCCESS \<and>
   AdiI2CInit (sdk_init 0x47 CY_U3P_SUCCESS) 400000 False globals_example =
     (0x47, globals_example,
      [Call_CyU3PI2cDeInit, Call_CyU3PI2cInit 0x47, Call_AdiLogError I2cFunctions_c 102 0x47])"
proof -
  have p: "r = (fst r, fst (snd r), snd (snd r))"
    for r :: "CyU3PReturnStatus_t \<times> 16 word globals \<times> 16 word call list" by simp
  let ?r1 = "AdiI2CInit (sdk_init CY_U3P_SUCCESS 0x40) 400000 False globals_example"
  let ?r2 = "AdiI2CInit (sdk_init 0x47 CY_U3P_SUCCESS) 400000 False globals_example"
  have i1: "CyU3PI2cInit (sdk_init CY_U3P_SUCCESS 0x40) = CY_U3P_SUCCESS"
    by (simp add: sdk_init_simps)
  have i2: "CyU3PI2cInit (sdk_init 0x47 CY_U3P_SUCCESS) \<noteq> CY_U3P_SUCCESS"
    by (simp add: sdk_init_simps CY_U3P_SUCCESS_def)
  from AdiI2CInit_saves_rate_iff_init_succeeds [OF p, of "sdk_init CY_U3P_SUCCESS 0x40" 400000 False globals_example] i1
  obtain i2cConfig where
    "fst ?r1 = CyU3PI2cSetConfig (sdk_init CY_U3P_SUCCESS 0x40) i2cConfig"
    "100000 \<le> bitRate i2cConfig"
    "fst (snd ?r1) = globals_example\<lparr>FX3State := (FX3State globals_example)\<lparr>I2CBitRate := bitRate i2cConfig\<rparr>\<rparr>"
    by blast
  then have a: "fst ?r1 = 0x40" "100000 \<le> I2CBitRate (FX3State (fst (snd ?r1)))"
    by (simp_all add: sdk_init_simps)
  from AdiI2CInit_saves_rate_iff_init_succeeds [OF p, of "sdk_init 0x47 CY_U3P_SUCCESS" 400000 False globals_example] i2
  have "fst ?r2 = 0x47" "fst (snd ?r2) = globals_example"
    "snd (snd ?r2) = [Call_CyU3PI2cDeInit, Call_CyU3PI2cInit 0x47, Call_AdiLogError I2cFunctions_c 102 0x47]"
    by (simp_all add: sdk_init_simps)
  then have b: "?r2 = (0x47, globals_example,
      [Call_CyU3PI2cDeInit, Call_CyU3PI2cInit 0x47, Call_AdiLogError I2cFunctions_c 102 0x47])"
    by (simp add: prod_eq_iff)
  show ?thesis using i1 i2 a b by simp
qed

subsection \<open>The read handler\<close>

lemma sdk_transfer_simps:
  "CyU3PUsbGetEP0Data (sdk_transfer payload a b) count usb =
     (a, payload @ drop (length payload) usb, of_nat (length payload))"
  "CyU3PI2cReceiveBytes (sdk_transfer payload a b) preamble bulk byteCount retryCount = (b, bulk)"
  "CyU3PI2cTransmitBytes (sdk_transfer payload a b) preamble data byteCount retryCount = b"
  by (simp_all add: sdk_transfer_def)

lemma globals_example_simps:
  "USBBuffer globals_example = replicate 4096 0xAA"
  "BulkBuffer globals_example = replicate 12288 0"
  "ManualDMABuffer globals_example = \<lparr>dma_buffer = BulkBuffer_plus 0, dma_size = 0, dma_count = 0\<rparr>"
  "FX3State globals_example = \<lparr>I2CRetryCount = 3, I2CBitRate = 0\<rparr>"
  by (simp_all add: globals_example_def)

lemma replicate_6: "replicate 6 (0::uint8_t) = [0, 0, 0, 0, 0, 0]"
  by (simp add: numeral_eq_Suc)

lemma replicate_7: "replicate 7 (0::uint8_t) = [0, 0, 0, 0, 0, 0, 0]"
  by (simp add: numeral_eq_Suc)




subsection \<open>The write handler\<close>




subsection \<open>Requests the parser does not check\<close>

text \<open>
  Claim C1. \<^verbatim>\<open>ParseUSBBuffer\<close> copies \<^verbatim>\<open>preamble->length\<close> bytes into
  \<^verbatim>\<open>preamble->buffer\<close> with no test against the capacity of that array, and it has no
  failure result. With the SDK's capacity of 8, the 20-byte request whose length byte is
  9 (followed by its 9 address bytes) makes the read handler store to
  \<^verbatim>\<open>preamble->buffer[8]\<close>, one past the end: the run leaves defined behaviour at that
  store, after the control-endpoint read and with nothing rejected.
\<close>

theorem AdiI2CReadHandler_preamble_length_9:
  "spec_encode 16 1000 9 1 [0x50, 0, 0, 0, 0, 0, 0, 0, 0] ! 8 = 9 \<and>
   AdiI2CReadHandler
     (sdk_transfer (spec_encode 16 1000 9 1 [0x50, 0, 0, 0, 0, 0, 0, 0, 0])
        CY_U3P_SUCCESS CY_U3P_SUCCESS)
     8 20 globals_example =
   (Inl (Store_past_preamble_buffer 8),
    globals_example
      \<lparr>USBBuffer := spec_encode 16 1000 9 1 [0x50, 0, 0, 0, 0, 0, 0, 0, 0] @ replicate 4076 0xAA\<rparr>,
    [Call_CyU3PUsbGetEP0Data 20 CY_U3P_SUCCESS])"
proof -
  let ?payload = "spec_encode 16 1000 9 1 [0x50, 0, 0, 0, 0, 0, 0, 0, 0]"
  have l: "length ?payload = 20"
    by (simp add: spec_encode_def le_bytes32_def le_bytes16_def)
  have n: "(?payload @ rest) ! 8 = 9" for rest
    by (simp add: spec_encode_nth)
  have "8 < unat ((?payload @ replicate 4076 0xAA) ! 8)"
    by (simp add: n)
  then have p: "ParseUSBBuffer (?payload @ replicate 4076 0xAA) (preamble_zero 8) =
      Inl (Store_past_preamble_buffer 8)"
    by (rule ParseUSBBuffer_overrun)
  have "?payload ! 8 = 9" using n [of "[]"] by simp
  then show ?thesis
    by (simp add: AdiI2CReadHandler_def sdk_transfer_simps globals_example_simps l p Let_def)
qed

text \<open>
  Claim C3. \<^verbatim>\<open>AdiI2CWriteHandler\<close> hands \<^verbatim>\<open>USBBuffer + index\<close> and \<^verbatim>\<open>numBytes\<close> to
  \<^verbatim>\<open>CyU3PI2cTransmitBytes\<close> with no test of their sum against the 4096 bytes of
  \<^verbatim>\<open>USBBuffer\<close>. The 12-byte request with transferLength 5000 and one address byte
  has its data at offset 12, and 12 + 5000 exceeds 4096; the handler calls
  \<^verbatim>\<open>CyU3PI2cTransmitBytes\<close> with the pointer \<^verbatim>\<open>USBBuffer + 12\<close> and the count 5000.
\<close>

theorem AdiI2CWriteHandler_transfer_past_USBBuffer:
  "length (USBBuffer globals_example) = 4096 \<and>
   4096 < 12 + unat (5000 :: uint32_t) \<and>
   AdiI2CWriteHandler (sdk_transfer (spec_encode 5000 1000 1 1 [0x50]) CY_U3P_SUCCESS CY_U3P_SUCCESS)
     8 index_before 12 globals_example =
   (Inr CY_U3P_SUCCESS,
    globals_example\<lparr>USBBuffer := spec_encode 5000 1000 1 1 [0x50] @ replicate 4084 0xAA\<rparr>,
    [Call_CyU3PUsbGetEP0Data 12 CY_U3P_SUCCESS,
     Call_CyU3PI2cTransmitBytes
       \<lparr>pre_buffer = [0x50, 0, 0, 0, 0, 0, 0, 0], pre_length = 1, pre_ctrlMask = 1\<rparr>
       (USBBuffer_plus 12) 5000 3 CY_U3P_SUCCESS])"
proof -
  have l: "length (spec_encode 5000 1000 1 1 [0x50]) = 12"
    by (simp add: spec_encode_def le_bytes32_def le_bytes16_def)
  have p: "ParseUSBBuffer (spec_encode 5000 1000 1 1 [0x50] @ replicate 4084 0xAA) (preamble_zero 8) =
     Inr (1000, 5000, \<lparr>pre_buffer = [0x50, 0, 0, 0, 0, 0, 0, 0], pre_length = 1, pre_ctrlMask = 1\<rparr>, Some 12)"
    using ParseUSBBuffer_spec_encode [of "[0x50]" 1 8 5000 1000 1 "replicate 4084 0xAA"]
    by (simp add: replicate_7)
  show ?thesis
    by (simp add: AdiI2CWriteHandler_def sdk_transfer_simps globals_example_simps l p Let_def)
qed

text \<open>
  Claim C2, as stated, fails. \<^verbatim>\<open>ParseUSBBuffer\<close> reads the global \<^verbatim>\<open>USBBuffer\<close> and
  takes no length; both handlers drop the count that \<^verbatim>\<open>CyU3PUsbGetEP0Data\<close> reports.
  An 11-byte request whose length byte is 2 is two bytes short of 11 + 2. The read
  handler parses it all the same, takes the two address bytes from offsets 11 and 12,
  where the buffer still holds 0xAA from earlier traffic, and goes on to the bus read.
\<close>

theorem AdiI2CReadHandler_short_payload:
  "length (spec_encode 10 1000 2 1 []) = 11 \<and>
   spec_encode 10 1000 2 1 [] ! 8 = 2 \<and>
   AdiI2CReadHandler (sdk_transfer (spec_encode 10 1000 2 1 []) CY_U3P_SUCCESS CY_U3P_SUCCESS)
     8 11 globals_example =
   (Inr CY_U3P_SUCCESS,
    globals_example
      \<lparr>USBBuffer := spec_encode 10 1000 2 1 [] @ replicate 4085 0xAA,
       ManualDMABuffer := \<lparr>dma_buffer = BulkBuffer_plus 0, dma_size = 4096, dma_count = 10\<rparr>\<rparr>,
    [Call_CyU3PUsbGetEP0Data 11 CY_U3P_SUCCESS,
     Call_CyU3PI2cReceiveBytes
       \<lparr>pre_buffer = [0xAA, 0xAA, 0, 0, 0, 0, 0, 0], pre_length = 2, pre_ctrlMask = 1\<rparr>
       (BulkBuffer_plus 0) 10 3 CY_U3P_SUCCESS,
     Call_CyU3PDmaChannelSetupSendBuffer
       \<lparr>dma_buffer = BulkBuffer_plus 0, dma_size = 4096, dma_count = 10\<rparr>])"
proof -
  have l: "length (spec_encode 10 1000 2 1 []) = 11"
    by (simp add: spec_encode_def le_bytes32_def le_bytes16_def)
  have n: "spec_encode 10 1000 2 1 [] ! 8 = 2"
    by (simp add: spec_encode_def le_bytes32_def le_bytes16_def)
  have r: "replicate 4085 (0xAA :: uint8_t) = [0xAA, 0xAA] @ replicate 4083 0xAA"
    using replicate_add [of 2 4083 "0xAA :: uint8_t"] by (simp add: numeral_2_eq_2)
  have e: "spec_encode 10 1000 2 1 [] @ replicate 4085 0xAA =
           spec_encode 10 1000 2 1 [0xAA, 0xAA] @ replicate 4083 0xAA"
    by (simp add: spec_encode_def r)
  have p: "ParseUSBBuffer (spec_encode 10 1000 2 1 [] @ replicate 4085 0xAA) (preamble_zero 8) =
     Inr (1000, 10, \<lparr>pre_buffer = [0xAA, 0xAA, 0, 0, 0, 0, 0, 0], pre_length = 2, pre_ctrlMask = 1\<rparr>, Some 13)"
    unfolding e
    using ParseUSBBuffer_spec_encode [of "[0xAA, 0xAA]" 2 8 10 1000 1 "replicate 4083 0xAA"]
    by (simp add: replicate_6)
  show ?thesis
    by (simp add: AdiI2CReadHandler_def sdk_transfer_simps globals_example_simps l n p Let_def)
qed

text \<open>
  Claim C2, amended. For every content of the 4096-byte \<^verbatim>\<open>USBBuffer\<close> whose length byte
  is within the capacity of the preamble buffer, \<^verbatim>\<open>ParseUSBBuffer\<close> returns a header,
  whatever number of bytes the control transfer delivered, and the result is fixed by
  the bytes at offsets below 11 + length alone: two buffer contents that agree there
  parse alike. These offsets all lie inside the array. The witness changes the byte at
  offset 13 of a buffer whose length byte is 2.
\<close>

theorem ParseUSBBuffer_reads_inside_USBBuffer:
  assumes "length usb = 4096" and "unat (usb ! 8) \<le> cap"
      and "\<And>i. i < 11 + unat (usb ! 8) \<Longrightarrow> usb' ! i = usb ! i"
  shows "11 + unat (usb ! 8) \<le> length usb \<and>
         (\<exists>timeout numBytes preamble index.
            ParseUSBBuffer usb (preamble_zero cap) = Inr (timeout, numBytes, preamble, index)) \<and>
         ParseUSBBuffer usb' (preamble_zero cap) = ParseUSBBuffer usb (preamble_zero cap)"
proof -
  have "unat (usb ! 8) < 2 ^ 8" using unsigned_less [of "usb ! 8", where ?'a = nat] by simp
  then have "11 + unat (usb ! 8) \<le> length usb" using assms(1) by simp
  moreover have "\<exists>timeout numBytes preamble index.
            ParseUSBBuffer usb (preamble_zero cap) = Inr (timeout, numBytes, preamble, index)"
    using ParseUSBBuffer_within [OF assms(2)] by blast
  moreover have "ParseUSBBuffer usb' (preamble_zero cap) = ParseUSBBuffer usb (preamble_zero cap)"
    using assms(3) by (rule ParseUSBBuffer_cong)
  ultimately show ?thesis by blast
qed

theorem ParseUSBBuffer_reads_inside_USBBuffer_witness:
  "length (spec_encode 10 1000 2 1 [] @ replicate 4085 0xAA) = 4096 \<and>
   unat ((spec_encode 10 1000 2 1 [] @ replicate 4085 0xAA) ! 8) \<le> 8 \<and>
   11 + unat ((spec_encode 10 1000 2 1 [] @ replicate 4085 0xAA) ! 8) = 13 \<and>
   (\<exists>timeout numBytes preamble index.
      ParseUSBBuffer (spec_encode 10 1000 2 1 [] @ replicate 4085 0xAA) (preamble_zero 8) =
        Inr (timeout, numBytes, preamble, index)) \<and>
   ParseUSBBuffer ((spec_encode 10 1000 2 1 [] @ replicate 4085 0xAA)[13 := 0x55]) (preamble_zero 8) =
     ParseUSBBuffer (spec_encode 10 1000 2 1 [] @ replicate 4085 0xAA) (preamble_zero 8)"
proof -
  let ?usb = "spec_encode 10 1000 2 1 [] @ replicate 4085 0xAA"
  have l: "length ?usb = 4096"
    by (simp add: spec_encode_def le_bytes32_def le_bytes16_def)
  have n: "?usb ! 8 = 2"
    by (simp add: spec_encode_def le_bytes32_def le_bytes16_def)
  have c: "unat (?usb ! 8) \<le> 8" by (simp add: n)
  have d: "(?usb[13 := 0x55]) ! i = ?usb ! i" if "i < 11 + unat (?usb ! 8)" for i
    using that by (simp add: n)
  from ParseUSBBuffer_reads_inside_USBBuffer [OF l c d]
  show ?thesis using l by (simp add: n)
qed

subsection \<open>The timeout field\<close>

lemma ParseUSBBuffer_timeout_bytes:
  assumes "\<And>i. i \<notin> {4, 5, 6, 7} \<Longrightarrow> usb' ! i = usb ! i"
  shows "(\<exists>ub. ParseUSBBuffer usb' (preamble_zero cap) = Inl ub \<and>
               ParseUSBBuffer usb (preamble_zero cap) = Inl ub) \<or>
         (\<exists>timeout' timeout numBytes preamble.
            ParseUSBBuffer usb' (preamble_zero cap) =
              Inr (timeout', numBytes, preamble,
                   if usb ! 8 = 0 then None else Some (11 + ucast (usb ! 8))) \<and>
            ParseUSBBuffer usb (preamble_zero cap) =
              Inr (timeout, numBytes, preamble,
                   if usb ! 8 = 0 then None else Some (11 + ucast (usb ! 8))))"
proof -
  have h: "usb' ! 0 = usb ! 0" "usb' ! 1 = usb ! 1" "usb' ! 2 = usb ! 2" "usb' ! 3 = usb ! 3"
    "usb' ! 8 = usb ! 8" "usb' ! 9 = usb ! 9" "usb' ! 10 = usb ! 10"
    using assms by simp_all
  have a: "map (\<lambda>j. usb' ! (11 + j)) js = map (\<lambda>j. usb ! (11 + j)) js" for js
    using assms by simp
  show ?thesis
  proof (cases "unat (usb ! 8) \<le> cap")
    case True
    then have c: "unat (usb' ! 8) \<le> cap" by (simp add: h)
    have "ParseUSBBuffer usb' (preamble_zero cap) =
            Inr (((ucast (usb' ! 4) OR push_bit 8 (ucast (usb' ! 5))) OR push_bit 16 (ucast (usb' ! 6)))
                    OR push_bit 24 (ucast (usb' ! 7)),
                  ((ucast (usb ! 0) OR push_bit 8 (ucast (usb ! 1))) OR push_bit 16 (ucast (usb ! 2)))
                    OR push_bit 24 (ucast (usb ! 3)),
                  \<lparr>pre_buffer = map (\<lambda>j. usb ! (11 + j)) [0..<unat (usb ! 8)] @ replicate (cap - unat (usb ! 8)) 0,
                   pre_length = usb ! 8,
                   pre_ctrlMask = ucast (usb ! 9) OR push_bit 8 (ucast (usb ! 10))\<rparr>,
                  if usb ! 8 = 0 then None else Some (11 + ucast (usb ! 8)))"
      using ParseUSBBuffer_within [OF c] unfolding h a .
    moreover have "ParseUSBBuffer usb (preamble_zero cap) =
            Inr (((ucast (usb ! 4) OR push_bit 8 (ucast (usb ! 5))) OR push_bit 16 (ucast (usb ! 6)))
                    OR push_bit 24 (ucast (usb ! 7)),
                  ((ucast (usb ! 0) OR push_bit 8 (ucast (usb ! 1))) OR push_bit 16 (ucast (usb ! 2)))
                    OR push_bit 24 (ucast (usb ! 3)),
                  \<lparr>pre_buffer = map (\<lambda>j. usb ! (11 + j)) [0..<unat (usb ! 8)] @ replicate (cap - unat (usb ! 8)) 0,
                   pre_length = usb ! 8,
                   pre_ctrlMask = ucast (usb ! 9) OR push_bit 8 (ucast (usb ! 10))\<rparr>,
                  if usb ! 8 = 0 then None else Some (11 + ucast (usb ! 8)))"
      by (rule ParseUSBBuffer_within [OF True])
    ultimately show ?thesis by blast
  next
    case False
    then have "cap < unat (usb ! 8)" "cap < unat (usb' ! 8)" by (simp_all add: h)
    then show ?thesis by (simp add: ParseUSBBuffer_overrun)
  qed
qed

lemma drop_past_timeout_bytes:
  assumes "length usb' = length usb" and "\<And>i. i \<notin> {4, 5, 6, 7} \<Longrightarrow> usb' ! i = usb ! i"
  shows "drop (11 + k) usb' = drop (11 + k) usb"
proof (rule nth_equalityI)
  show "length (drop (11 + k) usb') = length (drop (11 + k) usb)" using assms(1) by simp
next
  fix i assume "i < length (drop (11 + k) usb')"
  then have "11 + k + i < length usb'" by simp
  then show "drop (11 + k) usb' ! i = drop (11 + k) usb ! i"
    using assms by simp
qed

text \<open>
  Claim C9, as stated, fails for the write handler when the length byte is 0: the
  pointer handed to the bus write is then \<^verbatim>\<open>USBBuffer\<close> plus the increment of the
  never-assigned \<^verbatim>\<open>index\<close>, and it can point at or before the timeout bytes. With that
  variable holding 3, the data start at offset 4; a bus whose status is the first byte
  it sends returns 232 for timeoutTicks 1000 and 77 for timeoutTicks 77, for two
  11-byte requests that differ in nothing else.
\<close>

theorem AdiI2CWriteHandler_length_0_sends_timeout_bytes:
  "spec_encode 4 77 0 1 [] = (spec_encode 4 1000 0 1 [])[4 := 77, 5 := 0] \<and>
   spec_encode 4 1000 0 1 [] ! 8 = 0 \<and>
   AdiI2CWriteHandler (sdk_status_from_data (spec_encode 4 1000 0 1 [])) 8 3 11 globals_example =
     (Inr 232,
      globals_example\<lparr>USBBuffer := spec_encode 4 1000 0 1 [] @ replicate 4085 0xAA\<rparr>,
      [Call_CyU3PUsbGetEP0Data 11 CY_U3P_SUCCESS,
       Call_CyU3PI2cTransmitBytes
         \<lparr>pre_buffer = [0, 0, 0, 0, 0, 0, 0, 0], pre_length = 0, pre_ctrlMask = 1\<rparr>
         (USBBuffer_plus 4) 4 3 232,
       Call_AdiLogError I2cFunctions_c 78 232]) \<and>
   AdiI2CWriteHandler (sdk_status_from_data (spec_encode 4 77 0 1 [])) 8 3 11 globals_example =
     (Inr 77,
      globals_example\<lparr>USBBuffer := spec_encode 4 77 0 1 [] @ replicate 4085 0xAA\<rparr>,
      [Call_CyU3PUsbGetEP0Data 11 CY_U3P_SUCCESS,
       Call_CyU3PI2cTransmitBytes
         \<lparr>pre_buffer = [0, 0, 0, 0, 0, 0, 0, 0], pre_length = 0, pre_ctrlMask = 1\<rparr>
         (USBBuffer_plus 4) 4 3 77,
       Call_AdiLogError I2cFunctions_c 78 77])"
proof -
  let ?a = "spec_encode 4 1000 0 1 []" and ?b = "spec_encode 4 77 0 1 []"
  let ?pre = "\<lparr>pre_buffer = [0, 0, 0, 0, 0, 0, 0, 0], pre_length = 0, pre_ctrlMask = 1\<rparr>"
  have ea: "?a = [4, 0, 0, 0, 0xE8, 3, 0, 0, 0, 1, 0]"
   and eb: "?b = [4, 0, 0, 0, 77, 0, 0, 0, 0, 1, 0]"
    by (simp_all add: spec_encode_def le_bytes32_def le_bytes16_def)
  have u: "?b = ?a[4 := 77, 5 := 0]"
    unfolding ea eb by (simp add: numeral_eq_Suc)
  have z: "?a ! 8 = 0" unfolding ea by simp
  have r8: "replicate 8 (0::uint8_t) = [0, 0, 0, 0, 0, 0, 0, 0]"
    by (simp add: numeral_eq_Suc)
  have pa: "ParseUSBBuffer (?a @ replicate 4085 0xAA) (preamble_zero 8) = Inr (1000, 4, ?pre, None)"
    using ParseUSBBuffer_spec_encode [of "[]" 0 8 4 1000 1 "replicate 4085 0xAA"]
    by (simp add: r8)
  have pb: "ParseUSBBuffer (?b @ replicate 4085 0xAA) (preamble_zero 8) = Inr (77, 4, ?pre, None)"
    using ParseUSBBuffer_spec_encode [of "[]" 0 8 4 77 1 "replicate 4085 0xAA"]
    by (simp add: r8)
  have s: "CyU3PUsbGetEP0Data (sdk_status_from_data payload) count usb =
             (CY_U3P_SUCCESS, payload @ drop (length payload) usb, of_nat (length payload))"
    "CyU3PI2cTransmitBytes (sdk_status_from_data payload) preamble data byteCount retryCount =
       (case data of [] \<Rightarrow> 0 | b # bs \<Rightarrow> ucast b)"
    for payload count usb preamble data byteCount retryCount
    by (simp_all add: sdk_status_from_data_def sdk_transfer_def)
  have da: "drop 4 ?a = [0xE8, 3, 0, 0, 0, 1, 0]"
   and db: "drop 4 ?b = [77, 0, 0, 0, 0, 1, 0]"
    unfolding ea eb by simp_all
  have la: "length ?a = 11" and lb: "length ?b = 11" unfolding ea eb by simp_all
  have ra: "AdiI2CWriteHandler (sdk_status_from_data ?a) 8 3 11 globals_example =
     (Inr 232, globals_example\<lparr>USBBuffer := ?a @ replicate 4085 0xAA\<rparr>,
      [Call_CyU3PUsbGetEP0Data 11 CY_U3P_SUCCESS,
       Call_CyU3PI2cTransmitBytes ?pre (USBBuffer_plus 4) 4 3 232,
       Call_AdiLogError I2cFunctions_c 78 232])"
    by (simp add: AdiI2CWriteHandler_def s globals_example_simps la pa da Let_def CY_U3P_SUCCESS_def)
  have rb: "AdiI2CWriteHandler (sdk_status_from_data ?b) 8 3 11 globals_example =
     (Inr 77, globals_example\<lparr>USBBuffer := ?b @ replicate 4085 0xAA\<rparr>,
      [Call_CyU3PUsbGetEP0Data 11 CY_U3P_SUCCESS,
       Call_CyU3PI2cTransmitBytes ?pre (USBBuffer_plus 4) 4 3 77,
       Call_AdiLogError I2cFunctions_c 78 77])"
    by (simp add: AdiI2CWriteHandler_def s globals_example_simps lb pb db Let_def CY_U3P_SUCCESS_def)
  show ?thesis using u z ra rb by simp
qed

text \<open>
  Claim C9, amended. Let two runs start from the same globals, with control-endpoint
  reads that return the same status and leave buffer contents of the same length that
  agree at every offset other than 4, 5, 6 and 7, with the same bus functions, and with
  a length byte within the capacity of the preamble buffer. Then
  \<^verbatim>\<open>AdiI2CReadHandler\<close> returns the same result and makes the same calls, with the same
  arguments and statuses, in both runs, and leaves the same \<^verbatim>\<open>BulkBuffer\<close> and
  \<^verbatim>\<open>ManualDMABuffer\<close>. When the length byte is also at least 1, so does
  \<^verbatim>\<open>AdiI2CWriteHandler\<close>, whatever the variable \<^verbatim>\<open>index\<close> held before its first
  assignment in either run. The witness runs the requests with timeoutTicks 1000 and
  77 and the length byte 2, the write handler with the bus of the counterexample.
\<close>

theorem timeoutTicks_has_no_effect_within_capacity:
  fixes g :: "('w::len) word globals"
  assumes "CyU3PUsbGetEP0Data sdk RequestLength (USBBuffer g) = (status, usb, bytesRead)"
      and "CyU3PUsbGetEP0Data sdk' RequestLength (USBBuffer g) = (status, usb', bytesRead')"
      and "length usb' = length usb"
      and "\<And>i. i \<notin> {4, 5, 6, 7} \<Longrightarrow> usb' ! i = usb ! i"
      and "CyU3PI2cReceiveBytes sdk' = CyU3PI2cReceiveBytes sdk"
      and "CyU3PI2cTransmitBytes sdk' = CyU3PI2cTransmitBytes sdk"
      and "unat (usb ! 8) \<le> cap"
  shows "fst (AdiI2CReadHandler sdk' cap RequestLength g) =
           fst (AdiI2CReadHandler sdk cap RequestLength g) \<and>
         snd (snd (AdiI2CReadHandler sdk' cap RequestLength g)) =
           snd (snd (AdiI2CReadHandler sdk cap RequestLength g)) \<and>
         BulkBuffer (fst (snd (AdiI2CReadHandler sdk' cap RequestLength g))) =
           BulkBuffer (fst (snd (AdiI2CReadHandler sdk cap RequestLength g))) \<and>
         ManualDMABuffer (fst (snd (AdiI2CReadHandler sdk' cap RequestLength g))) =
           ManualDMABuffer (fst (snd (AdiI2CReadHandler sdk cap RequestLength g))) \<and>
         (1 \<le> unat (usb ! 8) \<longrightarrow>
            fst (AdiI2CWriteHandler sdk' cap index_before' RequestLength g) =
              fst (AdiI2CWriteHandler sdk cap index_before RequestLength g) \<and>
            snd (snd (AdiI2CWriteHandler sdk' cap index_before' RequestLength g)) =
              snd (snd (AdiI2CWriteHandler sdk cap index_before RequestLength g)))"
proof -
  have d: "drop (unat (11 + ucast (usb ! 8) :: uint32_t)) usb' =
           drop (unat (11 + ucast (usb ! 8) :: uint32_t)) usb"
    unfolding unat_dataOffset using assms(3,4) by (rule drop_past_timeout_bytes)
  have z: "1 \<le> unat (usb ! 8) \<Longrightarrow> usb ! 8 \<noteq> 0" by auto
  have "(\<exists>ub. ParseUSBBuffer usb' (preamble_zero cap) = Inl ub \<and>
               ParseUSBBuffer usb (preamble_zero cap) = Inl ub) \<or>
         (\<exists>timeout' timeout numBytes preamble.
            ParseUSBBuffer usb' (preamble_zero cap) =
              Inr (timeout', numBytes, preamble,
                   if usb ! 8 = 0 then None else Some (11 + ucast (usb ! 8))) \<and>
            ParseUSBBuffer usb (preamble_zero cap) =
              Inr (timeout, numBytes, preamble,
                   if usb ! 8 = 0 then None else Some (11 + ucast (usb ! 8))))"
    by (rule ParseUSBBuffer_timeout_bytes) (rule assms(4))
  then show ?thesis
  proof (elim disjE exE conjE)
    fix ub
    assume "ParseUSBBuffer usb' (preamble_zero cap) = Inl ub"
      "ParseUSBBuffer usb (preamble_zero cap) = Inl ub"
    then show ?thesis
      by (simp add: AdiI2CReadHandler_def AdiI2CWriteHandler_def assms(1,2) Let_def)
  next
    fix timeout' timeout numBytes preamble
    assume "ParseUSBBuffer usb' (preamble_zero cap) =
              Inr (timeout', numBytes, preamble,
                   if usb ! 8 = 0 then None else Some (11 + ucast (usb ! 8)))"
      "ParseUSBBuffer usb (preamble_zero cap) =
              Inr (timeout, numBytes, preamble,
                   if usb ! 8 = 0 then None else Some (11 + ucast (usb ! 8)))"
    then show ?thesis
      using z
      by (simp add: AdiI2CReadHandler_def AdiI2CWriteHandler_def assms(1,2,5,6) Let_def d
            split: prod.splits)
  qed
qed

theorem timeoutTicks_has_no_effect_within_capacity_witness:
  "spec_encode 10 77 2 1 [0x50, 0] = (spec_encode 10 1000 2 1 [0x50, 0])[4 := 77, 5 := 0] \<and>
   spec_encode 10 77 2 1 [0x50, 0] \<noteq> spec_encode 10 1000 2 1 [0x50, 0] \<and>
   spec_encode 10 1000 2 1 [0x50, 0] ! 8 = 2 \<and>
   fst (AdiI2CReadHandler (sdk_transfer (spec_encode 10 77 2 1 [0x50, 0]) CY_U3P_SUCCESS CY_U3P_SUCCESS)
          8 13 globals_example) =
     fst (AdiI2CReadHandler (sdk_transfer (spec_encode 10 1000 2 1 [0x50, 0]) CY_U3P_SUCCESS CY_U3P_SUCCESS)
            8 13 globals_example) \<and>
   snd (snd (AdiI2CReadHandler (sdk_transfer (spec_encode 10 77 2 1 [0x50, 0]) CY_U3P_SUCCESS CY_U3P_SUCCESS)
          8 13 globals_example)) =
     snd (snd (AdiI2CReadHandler (sdk_transfer (spec_encode 10 1000 2 1 [0x50, 0]) CY_U3P_SUCCESS CY_U3P_SUCCESS)
            8 13 globals_example)) \<and>
   fst (AdiI2CWriteHandler (sdk_status_from_data (spec_encode 10 77 2 1 [0x50, 0])) 8 3 13 globals_example) =
     fst (AdiI2CWriteHandler (sdk_status_from_data (spec_encode 10 1000 2 1 [0x50, 0])) 8 3 13
            globals_example) \<and>
   snd (snd (AdiI2CWriteHandler (sdk_status_from_data (spec_encode 10 77 2 1 [0x50, 0])) 8 3 13
               globals_example)) =
     snd (snd (AdiI2CWriteHandler (sdk_status_from_data (spec_encode 10 1000 2 1 [0x50, 0])) 8 3 13
                 globals_example))"
proof -
  let ?a = "spec_encode 10 1000 2 1 [0x50, 0]" and ?b = "spec_encode 10 77 2 1 [0x50, 0]"
  let ?rest = "drop 13 (USBBuffer globals_example)"
  have ea: "?a = [10, 0, 0, 0, 0xE8, 3, 0, 0, 2, 1, 0, 0x50, 0]"
   and eb: "?b = [10, 0, 0, 0, 77, 0, 0, 0, 2, 1, 0, 0x50, 0]"
    by (simp_all add: spec_encode_def le_bytes32_def le_bytes16_def)
  have la: "length ?a = 13" and lb: "length ?b = 13" unfolding ea eb by simp_all
  have u: "?b = ?a[4 := 77, 5 := 0]"
    unfolding ea eb by (simp add: numeral_eq_Suc)
  have ne: "?b \<noteq> ?a" unfolding ea eb by simp
  have n8: "?a ! 8 = 2" unfolding ea by simp
  have n8': "(?a @ ?rest) ! 8 = 2" by (simp add: nth_append la n8)
  have s: "CyU3PUsbGetEP0Data (sdk_status_from_data payload) count usb =
             (CY_U3P_SUCCESS, payload @ drop (length payload) usb, of_nat (length payload))"
    for payload count usb
    by (simp add: sdk_status_from_data_def sdk_transfer_def)
  have h3: "length (?b @ ?rest) = length (?a @ ?rest)" by (simp add: la lb)
  have h4: "(?b @ ?rest) ! i = (?a @ ?rest) ! i" if "i \<notin> {4, 5, 6, 7}" for i
  proof -
    have "?b @ ?rest = (?a @ ?rest)[4 := 77, 5 := 0]"
      by (simp add: u list_update_append la)
    then show ?thesis using that by simp
  qed
  have h7: "unat ((?a @ ?rest) ! 8) \<le> 8" and h8: "1 \<le> unat ((?a @ ?rest) ! 8)"
    by (simp_all add: n8')
  have r1: "CyU3PUsbGetEP0Data (sdk_transfer ?a CY_U3P_SUCCESS CY_U3P_SUCCESS) 13 (USBBuffer globals_example) =
              (CY_U3P_SUCCESS, ?a @ ?rest, 13)"
    by (simp add: sdk_transfer_simps la)
  have r2: "CyU3PUsbGetEP0Data (sdk_transfer ?b CY_U3P_SUCCESS CY_U3P_SUCCESS) 13 (USBBuffer globals_example) =
              (CY_U3P_SUCCESS, ?b @ ?rest, 13)"
    by (simp add: sdk_transfer_simps lb)
  have r5: "CyU3PI2cReceiveBytes (sdk_transfer ?b CY_U3P_SUCCESS CY_U3P_SUCCESS) =
            CyU3PI2cReceiveBytes (sdk_transfer ?a CY_U3P_SUCCESS CY_U3P_SUCCESS)"
   and r6: "CyU3PI2cTransmitBytes (sdk_transfer ?b CY_U3P_SUCCESS CY_U3P_SUCCESS) =
            CyU3PI2cTransmitBytes (sdk_transfer ?a CY_U3P_SUCCESS CY_U3P_SUCCESS)"
    by (simp_all add: sdk_transfer_def)
  have w1: "CyU3PUsbGetEP0Data (sdk_status_from_data ?a) 13 (USBBuffer globals_example) =
              (CY_U3P_SUCCESS, ?a @ ?rest, 13)"
    by (simp add: s la)
  have w2: "CyU3PUsbGetEP0Data (sdk_status_from_data ?b) 13 (USBBuffer globals_example) =
              (CY_U3P_SUCCESS, ?b @ ?rest, 13)"
    by (simp add: s lb)
  have w5: "CyU3PI2cReceiveBytes (sdk_status_from_data ?b) = CyU3PI2cReceiveBytes (sdk_status_from_data ?a)"
   and w6: "CyU3PI2cTransmitBytes (sdk_status_from_data ?b) = CyU3PI2cTransmitBytes (sdk_status_from_data ?a)"
    by (simp_all add: sdk_status_from_data_def sdk_transfer_def)
  from timeoutTicks_has_no_effect_within_capacity [OF r1 r2 h3 h4 r5 r6 h7]
  have rd: "fst (AdiI2CReadHandler (sdk_transfer ?b CY_U3P_SUCCESS CY_U3P_SUCCESS) 8 13 globals_example) =
            fst (AdiI2CReadHandler (sdk_transfer ?a CY_U3P_SUCCESS CY_U3P_SUCCESS) 8 13 globals_example)"
    "snd (snd (AdiI2CReadHandler (sdk_transfer ?b CY_U3P_SUCCESS CY_U3P_SUCCESS) 8 13 globals_example)) =
     snd (snd (AdiI2CReadHandler (sdk_transfer ?a CY_U3P_SUCCESS CY_U3P_SUCCESS) 8 13 globals_example))"
    by blast+
  from timeoutTicks_has_no_effect_within_capacity [OF w1 w2 h3 h4 w5 w6 h7, where index_before = 3 and index_before' = 3] h8
  have wr: "fst (AdiI2CWriteHandler (sdk_status_from_data ?b) 8 3 13 globals_example) =
            fst (AdiI2CWriteHandler (sdk_status_from_data ?a) 8 3 13 globals_example)"
    "snd (snd (AdiI2CWriteHandler (sdk_status_from_data ?b) 8 3 13 globals_example)) =
     snd (snd (AdiI2CWriteHandler (sdk_status_from_data ?a) 8 3 13 globals_example))"
    by blast+
  show ?thesis using u ne n8 rd wr by blast
qed

subsection \<open>The returned index\<close>

text \<open>
  Claim C10, as stated, fails for a length byte above the capacity of the preamble
  buffer: with the capacity 8 and the length byte 255 the loop stores past the end of
  \<^verbatim>\<open>preamble->buffer\<close> at index 8, and no offset 11 + 255 is returned by a defined run.
\<close>

theorem ParseUSBBuffer_length_255:
  "1 \<le> unat (((replicate 4096 0)[8 := 255] :: uint8_t list) ! 8) \<and>
   ParseUSBBuffer ((replicate 4096 0)[8 := 255]) (preamble_zero 8) =
     Inl (Store_past_preamble_buffer 8) \<and>
   \<not> (\<exists>timeout numBytes preamble.
         ParseUSBBuffer ((replicate 4096 0)[8 := 255]) (preamble_zero 8) =
           Inr (timeout, numBytes, preamble,
                Some (11 + ucast (((replicate 4096 0)[8 := 255] :: uint8_t list) ! 8))))"
proof -
  have "8 < unat (((replicate 4096 0)[8 := 255] :: uint8_t list) ! 8)" by simp
  then have "ParseUSBBuffer ((replicate 4096 0)[8 := 255]) (preamble_zero 8) =
     Inl (Store_past_preamble_buffer 8)"
    by (rule ParseUSBBuffer_overrun)
  then show ?thesis by simp
qed

text \<open>
  Claim C10, amended. For a length byte of at least 1 and at most the capacity of the
  preamble buffer, \<^verbatim>\<open>ParseUSBBuffer\<close> returns the offset 11 + length (no wrap-around
  at 32 bits). For the length byte 0 the loop body never runs, \<^verbatim>\<open>index\<close> is never
  assigned, and the value returned is the increment of an unassigned variable (\<open>None\<close>).
\<close>

theorem ParseUSBBuffer_returned_index:
  "(1 \<le> unat (usb ! 8) \<and> unat (usb ! 8) \<le> cap \<longrightarrow>
      (\<exists>timeout numBytes preamble.
         ParseUSBBuffer usb (preamble_zero cap) =
           Inr (timeout, numBytes, preamble, Some (11 + ucast (usb ! 8)))) \<and>
      unat (11 + ucast (usb ! 8) :: uint32_t) = 11 + unat (usb ! 8)) \<and>
   (usb ! 8 = 0 \<longrightarrow>
      (\<exists>timeout numBytes preamble.
         ParseUSBBuffer usb (preamble_zero cap) = Inr (timeout, numBytes, preamble, None)))"
proof (intro conjI impI)
  assume a: "1 \<le> unat (usb ! 8) \<and> unat (usb ! 8) \<le> cap"
  then have "usb ! 8 \<noteq> 0" by auto
  with ParseUSBBuffer_within [of usb cap] a
  show "\<exists>timeout numBytes preamble.
         ParseUSBBuffer usb (preamble_zero cap) =
           Inr (timeout, numBytes, preamble, Some (11 + ucast (usb ! 8)))"
    by simp
  show "unat (11 + ucast (usb ! 8) :: uint32_t) = 11 + unat (usb ! 8)"
    by (rule unat_dataOffset)
next
  assume "usb ! 8 = 0"
  with ParseUSBBuffer_within [of usb cap]
  show "\<exists>timeout numBytes preamble.
         ParseUSBBuffer usb (preamble_zero cap) = Inr (timeout, numBytes, preamble, None)"
    by simp
qed

theorem ParseUSBBuffer_returned_index_witness:
  "1 \<le> unat ((spec_encode 16 1000 2 1 [0x50, 0] @ replicate 4083 0) ! 8) \<and>
   unat ((spec_encode 16 1000 2 1 [0x50, 0] @ replicate 4083 0) ! 8) \<le> 8 \<and>
   (\<exists>timeout numBytes preamble.
      ParseUSBBuffer (spec_encode 16 1000 2 1 [0x50, 0] @ replicate 4083 0) (preamble_zero 8) =
        Inr (timeout, numBytes, preamble, Some 13)) \<and>
   (spec_encode 16 1000 0 0 [] @ replicate 4085 0) ! 8 = 0 \<and>
   (\<exists>timeout numBytes preamble.
      ParseUSBBuffer (spec_encode 16 1000 0 0 [] @ replicate 4085 0) (preamble_zero 8) =
        Inr (timeout, numBytes, preamble, None))"
proof -
  let ?a = "spec_encode 16 1000 2 1 [0x50, 0] @ replicate 4083 0"
  let ?z = "spec_encode 16 1000 0 0 [] @ replicate 4085 0"
  have a: "?a ! 8 = 2" and z: "?z ! 8 = 0"
    by (simp_all add: spec_encode_nth)
  from ParseUSBBuffer_returned_index [of ?a 8] ParseUSBBuffer_returned_index [of ?z 8]
  show ?thesis by (simp add: a z)
qed


end
